theory Spec2Isabelle
  imports Complex_Main
begin

section \<open>Rotation prototype: \<open>scripts/gripper_environment.py\<close>\<close>

text \<open>
  Sensor readings and rewards are Python floats; they are modelled as exact reals, so the
  comparisons and the arithmetic of the reward functions are those of the reals (no
  rounding, no NaN).

  A marker pose of the prototype is a two-element sequence: \<open>pose[0]\<close> is the position
  and \<open>pose[1]\<close> the orientation (roll, pitch, yaw), so \<open>pose[1][2]\<close> is the yaw.
  The detector's result is a dictionary from marker id to pose, modelled as an association
  list: \<open>len(d) == 0\<close> is \<open>d = []\<close> and \<open>k in d\<close> is \<open>map_of d k \<noteq> None\<close>.
\<close>

type_synonym vec3 = "real \<times> real \<times> real"
type_synonym marker_pose = "vec3 \<times> vec3"
type_synonym marker_poses = "(int \<times> marker_pose) list"

definition pose_yaw :: "marker_pose \<Rightarrow> real" where
  "pose_yaw marker_pose = (case snd marker_pose of (roll, pitch, yaw) \<Rightarrow> yaw)"

text \<open>
  The camera and the detector are collaborators: \<open>detections k\<close> is what the detector
  reports on the \<open>k\<close>-th frame the camera delivers, and \<open>captured\<close> counts the frames
  taken so far. The gripper is a collaborator too; its state is carried as \<open>gripper\<close>
  and its operations are parameters of \<open>reset\<close> and \<open>step\<close>.
\<close>

record 'g environment =
  detections :: "nat \<Rightarrow> marker_poses"
  captured :: nat
  target_angle :: real
  gripper :: 'g

text \<open>\<open>choose_target_angle\<close>; the argument is the number drawn by \<open>np.random.randint(1,5)\<close>.\<close>

definition choose_target_angle :: "int \<Rightarrow> real" where
  "choose_target_angle drawn =
     (if drawn = 1 then 90
      else if drawn = 2 then 180
      else if drawn = 3 then 270
      else if drawn = 4 then 0
      else -1)"

text \<open>
  \<open>reward_function(target_angle, start_marker_pose, final_marker_pose, gripper_error)\<close>
  returns the pair \<open>(reward, terminated)\<close>.
\<close>

definition reward_function ::
  "real \<Rightarrow> marker_pose option \<Rightarrow> marker_pose option \<Rightarrow> 'e \<Rightarrow> real \<times> bool" where
  "reward_function target start_marker_pose final_marker_pose gripper_error =
     (case final_marker_pose of
        None \<Rightarrow> (0, True)
      | Some final \<Rightarrow>
          (case start_marker_pose of
             None \<Rightarrow> (0, True)
           | Some start \<Rightarrow>
               (let valve_angle_before = pose_yaw start;
                    valve_angle_after = pose_yaw final;
                    angle_difference = abs (target - valve_angle_after);
                    delta_changes = abs (target - valve_angle_before)
                                    - abs (target - valve_angle_after);
                    reward = (if -3 \<le> delta_changes \<and> delta_changes \<le> 3 then 0
                              else delta_changes)
                in if angle_difference \<le> 3 then (reward + 100, True)
                   else (reward, False))))"

text \<open>
  The detection loop of \<open>get_marker_pose\<close>:
  \<open>while len(marker_poses) == 0 and detect_attempts < 4\<close>, each round taking one frame.
  It returns the last detection result, the number of attempts and the advanced camera.
\<close>

function detect_loop ::
  "'g environment \<Rightarrow> marker_poses \<Rightarrow> nat \<Rightarrow> marker_poses \<times> nat \<times> 'g environment" where
  "detect_loop env marker_poses detect_attempts =
     (if length marker_poses = 0 \<and> detect_attempts < 4
      then detect_loop (env\<lparr>captured := captured env + 1\<rparr>)
             (detections env (captured env)) (detect_attempts + 1)
      else (marker_poses, detect_attempts, env))"
  by pat_completeness auto
termination
  by (relation "measure (\<lambda>(env, marker_poses, detect_attempts). 4 - detect_attempts)") auto

declare detect_loop.simps [simp del]

definition get_marker_pose ::
  "'g environment \<Rightarrow> int \<Rightarrow> marker_pose option \<times> 'g environment" where
  "get_marker_pose env marker_id =
     (case detect_loop env [] 0 of
        (marker_poses, detect_attempts, env') \<Rightarrow>
          (if map_of marker_poses marker_id \<noteq> None
           then (map_of marker_poses marker_id, env')
           else (None, env')))"

text \<open>
  \<open>reset\<close>: \<open>home\<close> is the gripper's \<open>home()\<close>, returning the joint state and a flag;
  \<open>rnd\<close> is the number drawn for the new target angle.
\<close>

definition reset ::
  "('g \<Rightarrow> (real list \<times> bool) \<times> 'g) \<Rightarrow> int \<Rightarrow> 'g environment
     \<Rightarrow> (real list \<times> bool) \<times> 'g environment" where
  "reset home rnd env =
     (case home (gripper env) of
        ((state, terminated), g) \<Rightarrow>
          (case get_marker_pose (env\<lparr>gripper := g\<rparr>) 0 of
             (marker_pose, env1) \<Rightarrow>
               (let marker_yaw = (case marker_pose of None \<Rightarrow> -1 | Some p \<Rightarrow> pose_yaw p)
                in ((state @ [marker_yaw], terminated),
                    env1\<lparr>target_angle := choose_target_angle rnd\<rparr>))))"

text \<open>
  \<open>step\<close>: \<open>move\<close> is the gripper's \<open>move(action=action)\<close>, returning the joint state and
  its error flag. The result is \<open>(state, reward, terminated, truncated)\<close>.
\<close>

definition step ::
  "('a \<Rightarrow> 'g \<Rightarrow> (real list \<times> 'e) \<times> 'g) \<Rightarrow> 'g environment \<Rightarrow> 'a
     \<Rightarrow> (real list \<times> real \<times> bool \<times> bool) \<times> 'g environment" where
  "step move env action =
     (case get_marker_pose env 0 of
        (start_marker_pose, env1) \<Rightarrow>
          (case move action (gripper env1) of
             ((state, gripper_error), g) \<Rightarrow>
               (case get_marker_pose (env1\<lparr>gripper := g\<rparr>) 0 of
                  (final_marker_pose, env2) \<Rightarrow>
                    (let final_marker_yaw =
                           (case final_marker_pose of None \<Rightarrow> -1 | Some p \<Rightarrow> pose_yaw p);
                         (reward, terminated) =
                           reward_function (target_angle env2) start_marker_pose
                             final_marker_pose gripper_error
                     in ((state @ [final_marker_yaw], reward, terminated, False), env2)))))"

text \<open>The two pose reads of a step, as \<open>step\<close> performs them.\<close>

definition step_start_pose :: "'g environment \<Rightarrow> marker_pose option" where
  "step_start_pose env = fst (get_marker_pose env 0)"

definition step_final_pose ::
  "('a \<Rightarrow> 'g \<Rightarrow> (real list \<times> 'e) \<times> 'g) \<Rightarrow> 'g environment \<Rightarrow> 'a \<Rightarrow> marker_pose option" where
  "step_final_pose move env action =
     (let env1 = snd (get_marker_pose env 0);
          g = snd (move action (gripper env1))
      in fst (get_marker_pose (env1\<lparr>gripper := g\<rparr>) 0))"

text \<open>The pose read of \<open>reset\<close>, taken after the gripper has gone home.\<close>

definition reset_pose ::
  "('g \<Rightarrow> (real list \<times> bool) \<times> 'g) \<Rightarrow> 'g environment \<Rightarrow> marker_pose option" where
  "reset_pose home env = fst (get_marker_pose (env\<lparr>gripper := snd (home (gripper env))\<rparr>) 0)"

section \<open>Translation task: \<open>environments/TranslationEnvironment.py\<close> and
  \<open>environments/two_finger/translation.py\<close>\<close>

datatype py_error = ValueError | IndexError | UnicodeDecodeError

text \<open>
  Positions and goals are Python sequences of floats, modelled as lists of reals; the slice
  \<open>v[0:2]\<close> is \<open>take 2 v\<close>. Subtracting two one-dimensional numpy arrays broadcasts an
  array of length one and raises \<open>ValueError\<close> on any other mismatch of lengths.
\<close>

definition np_sub :: "real list \<Rightarrow> real list \<Rightarrow> py_error + real list" where
  "np_sub xs ys =
     (if length xs = length ys then Inr (map2 (\<lambda>x y. x - y) xs ys)
      else if length xs = 1 then Inr (map (\<lambda>y. hd xs - y) ys)
      else if length ys = 1 then Inr (map (\<lambda>x. x - hd ys) xs)
      else Inl ValueError)"

text \<open>\<open>np.linalg.norm\<close> of a one-dimensional array: the Euclidean norm.\<close>

definition np_linalg_norm :: "real list \<Rightarrow> real" where
  "np_linalg_norm v = sqrt (sum_list (map (\<lambda>x. x\<^sup>2) v))"

text \<open>\<open>math.dist(p, q)\<close>: \<open>ValueError\<close> unless both points have the same dimension.\<close>

definition math_dist :: "real list \<Rightarrow> real list \<Rightarrow> py_error + real" where
  "math_dist p q =
     (if length p = length q then Inr (sqrt (sum_list (map2 (\<lambda>x y. (x - y)\<^sup>2) p q)))
      else Inl ValueError)"

text \<open>
  \<open>TranslationEnvironment.reward_function(target_goal, goal_before, goal_after)\<close>; the
  first argument of the model is the attribute \<open>self.noise_tolerance\<close>.
\<close>

definition translation_reward_function ::
  "real \<Rightarrow> real list \<Rightarrow> real list option \<Rightarrow> real list option
     \<Rightarrow> py_error + (real \<times> bool)" where
  "translation_reward_function noise_tolerance target_goal goal_before goal_after =
     (case goal_before of
        None \<Rightarrow> Inr (0, True)
      | Some before \<Rightarrow>
          (case goal_after of
             None \<Rightarrow> Inr (0, True)
           | Some after \<Rightarrow>
               (case np_sub (take 2 target_goal) (take 2 after) of
                  Inl e \<Rightarrow> Inl e
                | Inr d \<Rightarrow>
                    (let goal_difference = np_linalg_norm d
                     in if goal_difference \<le> noise_tolerance then Inr (500, True)
                        else Inr (- goal_difference, False)))))"

text \<open>
  The environment information of the two-finger task, restricted to what its reward reads:
  \<open>info["goal"]\<close> and \<open>info["poses"]["object"]["position"]\<close>.
\<close>

record environment_info =
  goal :: "real list"
  object_position :: "real list"

text \<open>\<open>TwoFingerTranslation._reward_function(previous_environment_info, current_environment_info)\<close>.\<close>

definition two_finger_reward_function ::
  "real \<Rightarrow> environment_info \<Rightarrow> environment_info \<Rightarrow> py_error + (real \<times> bool)" where
  "two_finger_reward_function noise_tolerance previous_environment_info current_environment_info =
     (let target_goal = goal current_environment_info;
          object_previous = take 2 (object_position previous_environment_info);
          object_current = take 2 (object_position current_environment_info)
      in case math_dist target_goal object_previous of
           Inl e \<Rightarrow> Inl e
         | Inr goal_distance_before \<Rightarrow>
             (case math_dist target_goal object_current of
                Inl e \<Rightarrow> Inl e
              | Inr goal_distance_after \<Rightarrow>
                  (let goal_progress = goal_distance_before - goal_distance_after
                   in if goal_distance_after \<le> noise_tolerance then Inr (500, True)
                      else Inr (0 + goal_progress, False))))"

text \<open>
  The distance the claims speak of, written out from their words: the Euclidean distance
  between the first two coordinates of a goal and of a position.
\<close>

definition euclidean_distance_xy :: "real list \<Rightarrow> real list \<Rightarrow> real" where
  "euclidean_distance_xy p q = sqrt ((p ! 0 - q ! 0)\<^sup>2 + (p ! 1 - q ! 1)\<^sup>2)"

section \<open>Pose sources: \<open>scripts/Objects.py\<close>\<close>

subsection \<open>\<open>ArucoObject\<close>\<close>

text \<open>
  Here a marker pose is a dictionary with the keys \<open>"position"\<close> and \<open>"orientation"\<close>;
  \<open>pose["orientation"][2]\<close> is the yaw. \<open>frames k\<close> is the detector's result on the
  \<open>k\<close>-th frame taken during the call.
\<close>

record aruco_pose =
  position :: vec3
  orientation :: vec3

type_synonym aruco_poses = "(int \<times> aruco_pose) list"

definition orientation_yaw :: "aruco_pose \<Rightarrow> real" where
  "orientation_yaw pose = (case orientation pose of (roll, pitch, yaw) \<Rightarrow> yaw)"

text \<open>
  \<open>get_yaw(blindable, detection_attempts)\<close>: the loop
  \<open>while not blindable or attempt < detection_attempts\<close> need not end, so the model is a
  partial function: \<open>None\<close> means that the call never returns. A returning call yields
  the yaw (Python's \<open>None\<close> is the inner \<open>None\<close>) and the number of detection attempts
  it made.
\<close>

partial_function (option) aruco_get_yaw_loop ::
  "(nat \<Rightarrow> aruco_poses) \<Rightarrow> int \<Rightarrow> bool \<Rightarrow> int \<Rightarrow> nat \<Rightarrow> (real option \<times> nat) option" where
  "aruco_get_yaw_loop frames object_marker_id blindable detection_attempts attempt =
     (if \<not> blindable \<or> int attempt < detection_attempts
      then (case map_of (frames attempt) object_marker_id of
              Some pose \<Rightarrow> Some (Some (orientation_yaw pose), attempt + 1)
            | None \<Rightarrow>
                aruco_get_yaw_loop frames object_marker_id blindable detection_attempts
                  (attempt + 1))
      else Some (None, attempt))"

definition aruco_get_yaw ::
  "(nat \<Rightarrow> aruco_poses) \<Rightarrow> int \<Rightarrow> bool \<Rightarrow> int \<Rightarrow> (real option \<times> nat) option" where
  "aruco_get_yaw frames object_marker_id blindable detection_attempts =
     aruco_get_yaw_loop frames object_marker_id blindable detection_attempts 0"

subsection \<open>\<open>MagnetObject\<close>: the serial line protocol\<close>

text \<open>
  Bytes are \<open>char\<close>s. A Python \<open>str\<close> is represented by its UTF-8 encoding: \<open>encode\<close> is
  then the identity, \<open>decode\<close> succeeds exactly on well-formed UTF-8 and returns its
  argument, equality of strings is equality of encodings, and splitting at the ASCII comma
  commutes with the encoding.
\<close>

type_synonym bytes = string

fun utf8_ok :: "nat list \<Rightarrow> bool" where
  "utf8_ok [] = True"
| "utf8_ok (b # bs) =
     (if b < 0x80 then utf8_ok bs
      else if 0xC2 \<le> b \<and> b \<le> 0xDF then
        (case bs of
           b1 # r \<Rightarrow> 0x80 \<le> b1 \<and> b1 \<le> 0xBF \<and> utf8_ok r
         | _ \<Rightarrow> False)
      else if 0xE0 \<le> b \<and> b \<le> 0xEF then
        (case bs of
           b1 # b2 # r \<Rightarrow>
             (if b = 0xE0 then 0xA0 else 0x80) \<le> b1
             \<and> b1 \<le> (if b = 0xED then 0x9F else 0xBF)
             \<and> 0x80 \<le> b2 \<and> b2 \<le> 0xBF \<and> utf8_ok r
         | _ \<Rightarrow> False)
      else if 0xF0 \<le> b \<and> b \<le> 0xF4 then
        (case bs of
           b1 # b2 # b3 # r \<Rightarrow>
             (if b = 0xF0 then 0x90 else 0x80) \<le> b1
             \<and> b1 \<le> (if b = 0xF4 then 0x8F else 0xBF)
             \<and> 0x80 \<le> b2 \<and> b2 \<le> 0xBF \<and> 0x80 \<le> b3 \<and> b3 \<le> 0xBF \<and> utf8_ok r
         | _ \<Rightarrow> False)
      else False)"

definition decode :: "bytes \<Rightarrow> py_error + string" where
  "decode bs = (if utf8_ok (map of_char bs) then Inr bs else Inl UnicodeDecodeError)"

definition encode :: "string \<Rightarrow> bytes" where
  "encode str = str"

text \<open>\<open>str.split(sep)\<close> for a one-character separator: never an empty list.\<close>

fun split_on :: "char \<Rightarrow> string \<Rightarrow> string list" where
  "split_on sep [] = [[]]"
| "split_on sep (c # cs) =
     (if c = sep then [] # split_on sep cs
      else (case split_on sep cs of
              [] \<Rightarrow> [[c]]
            | w # ws \<Rightarrow> (c # w) # ws))"

text \<open>
  The serial port: \<open>pending\<close> holds the bytes the device delivers from now on, and
  \<open>trace\<close> records, in order, the payload of every \<open>write\<close> and the bytes every read
  returned. The port is opened without a timeout, so \<open>read_until(b'\n')\<close> returns the
  bytes up to and including the next newline and never returns (\<open>None\<close>) when no newline
  arrives.
\<close>

datatype io_event = Write bytes | Read bytes

record serial =
  pending :: bytes
  trace :: "io_event list"

definition newline :: char where
  "newline = CHR 0x0A"

definition serial_write :: "bytes \<Rightarrow> serial \<Rightarrow> serial" where
  "serial_write data s = s\<lparr>trace := trace s @ [Write data]\<rparr>"

definition read_until :: "serial \<Rightarrow> (bytes \<times> serial) option" where
  "read_until s =
     (if newline \<in> set (pending s)
      then (let line = takeWhile (\<lambda>c. c \<noteq> newline) (pending s) @ [newline]
            in Some (line, s\<lparr>pending := tl (dropWhile (\<lambda>c. c \<noteq> newline) (pending s)),
                             trace := trace s @ [Read line]\<rparr>))
      else None)"

text \<open>The payloads written, in order.\<close>

fun writes :: "io_event list \<Rightarrow> bytes list" where
  "writes [] = []"
| "writes (Write data # es) = data # writes es"
| "writes (Read line # es) = writes es"

text \<open>How a call ends: it returns a value, raises, or waits for the device for ever.\<close>

datatype 'a outcome = Returned 'a | Raised py_error | Blocked

text \<open>\<open>get_response\<close>: \<open>self.serial.read_until(b'\n').decode().split(",")\<close>.\<close>

definition get_response :: "serial \<Rightarrow> string list outcome \<times> serial" where
  "get_response s =
     (case read_until s of
        None \<Rightarrow> (Blocked, s)
      | Some (line, s') \<Rightarrow>
          (case decode line of
             Inl e \<Rightarrow> (Raised e, s')
           | Inr str \<Rightarrow> (Returned (split_on CHR '','' str), s')))"

text \<open>
  Python's \<open>float(str)\<close>. On ASCII text: the whitespace bytes 9 to 13 and 32 are stripped
  from both ends, then come an optional sign and either \<open>inf\<close>, \<open>infinity\<close>, \<open>nan\<close> (in any
  case) or a decimal number with an optional fraction and exponent, where single
  underscores may separate digits; anything else is a \<open>ValueError\<close>. A number whose
  magnitude reaches \<open>2^1024 - 2^970\<close> is rounded to infinity; below that bound the value is
  kept as the exact real the text denotes, without rounding to a double. On text with a
  character outside ASCII Python consults its Unicode tables of digits and spaces; that
  part of the builtin is the parameter \<open>unicode_float\<close>, whose \<open>None\<close> is a \<open>ValueError\<close>.
\<close>

datatype float_value = Float real | PosInf | NegInf | NaN

definition is_digit :: "char \<Rightarrow> bool" where
  "is_digit c = (48 \<le> (of_char c :: nat) \<and> (of_char c :: nat) \<le> 57)"

definition digit_value :: "char \<Rightarrow> nat" where
  "digit_value c = of_char c - 48"

definition is_space :: "char \<Rightarrow> bool" where
  "is_space c = ((9 \<le> (of_char c :: nat) \<and> (of_char c :: nat) \<le> 13)
                 \<or> (of_char c :: nat) = 32)"

definition strip :: "string \<Rightarrow> string" where
  "strip str = rev (dropWhile is_space (rev (dropWhile is_space str)))"

definition lower :: "char \<Rightarrow> char" where
  "lower c = (if 65 \<le> (of_char c :: nat) \<and> (of_char c :: nat) \<le> 90
              then char_of ((of_char c :: nat) + 32) else c)"

fun digitpart_tail :: "string \<Rightarrow> nat list \<times> string" where
  "digitpart_tail [] = ([], [])"
| "digitpart_tail (c # cs) =
     (if is_digit c then
        (case digitpart_tail cs of (ds, r) \<Rightarrow> (digit_value c # ds, r))
      else if c = CHR ''_'' then
        (case cs of
           [] \<Rightarrow> ([], c # cs)
         | d # cs' \<Rightarrow>
             (if is_digit d
              then (case digitpart_tail cs' of (ds, r) \<Rightarrow> (digit_value d # ds, r))
              else ([], c # cs)))
      else ([], c # cs))"

definition digitpart :: "string \<Rightarrow> (nat list \<times> string) option" where
  "digitpart str =
     (case str of
        [] \<Rightarrow> None
      | c # cs \<Rightarrow> if is_digit c then Some (digitpart_tail str) else None)"

definition digits_value :: "nat list \<Rightarrow> nat" where
  "digits_value ds = foldl (\<lambda>a d. 10 * a + d) 0 ds"

definition split_sign :: "string \<Rightarrow> bool \<times> string" where
  "split_sign str =
     (case str of
        [] \<Rightarrow> (False, str)
      | c # cs \<Rightarrow>
          if c = CHR ''-'' then (True, cs)
          else if c = CHR ''+'' then (False, cs)
          else (False, str))"

definition parse_exponent :: "string \<Rightarrow> int option" where
  "parse_exponent str =
     (case str of
        [] \<Rightarrow> Some 0
      | c # cs \<Rightarrow>
          if c = CHR ''e'' \<or> c = CHR ''E'' then
            (case split_sign cs of
               (neg, body) \<Rightarrow>
                 (case digitpart body of
                    Some (ds, []) \<Rightarrow>
                      Some (if neg then - int (digits_value ds) else int (digits_value ds))
                  | _ \<Rightarrow> None))
          else None)"

definition scale10 :: "real \<Rightarrow> int \<Rightarrow> real" where
  "scale10 m e = (if 0 \<le> e then m * 10 ^ nat e else m / 10 ^ nat (- e))"

definition parse_number :: "string \<Rightarrow> real option" where
  "parse_number str =
     (case (case digitpart str of Some (ds, r) \<Rightarrow> (ds, r) | None \<Rightarrow> ([], str)) of
        (ip, r1) \<Rightarrow>
          (case (case r1 of
                   [] \<Rightarrow> ([], r1)
                 | c # cs \<Rightarrow>
                     if c = CHR ''.''
                     then (case digitpart cs of Some (ds, r) \<Rightarrow> (ds, r) | None \<Rightarrow> ([], cs))
                     else ([], r1)) of
             (fp, r2) \<Rightarrow>
               if ip = [] \<and> fp = [] then None
               else (case parse_exponent r2 of
                       None \<Rightarrow> None
                     | Some e \<Rightarrow>
                         Some (scale10 (real (digits_value (ip @ fp)) / 10 ^ length fp) e))))"

definition overflow_bound :: real where
  "overflow_bound = 2 ^ 1024 - 2 ^ 970"

definition ascii_float :: "string \<Rightarrow> py_error + float_value" where
  "ascii_float str =
     (case split_sign (strip str) of
        (neg, body) \<Rightarrow>
          if map lower body = ''inf'' \<or> map lower body = ''infinity''
          then Inr (if neg then NegInf else PosInf)
          else if map lower body = ''nan'' then Inr NaN
          else (case parse_number body of
                  None \<Rightarrow> Inl ValueError
                | Some v \<Rightarrow>
                    if overflow_bound \<le> v then Inr (if neg then NegInf else PosInf)
                    else Inr (Float (if neg then - v else v))))"

definition is_ascii :: "string \<Rightarrow> bool" where
  "is_ascii str = list_all (\<lambda>c. (of_char c :: nat) < 128) str"

definition py_float :: "(string \<Rightarrow> float_value option) \<Rightarrow> string \<Rightarrow> py_error + float_value" where
  "py_float unicode_float str =
     (if is_ascii str then ascii_float str
      else (case unicode_float str of
              None \<Rightarrow> Inl ValueError
            | Some v \<Rightarrow> Inr v))"

text \<open>
  The loop \<open>while response[0] != tag: write(command); response = get_response()\<close> of
  \<open>get_yaw\<close> (tag \<open>"YAW"\<close>) and of \<open>offset\<close> (tag \<open>"OFFSET"\<close>).
\<close>

function response_while ::
  "string \<Rightarrow> bytes \<Rightarrow> string list \<Rightarrow> serial \<Rightarrow> string list outcome \<times> serial" where
  "response_while tag command response s =
     (case response of
        [] \<Rightarrow> (Raised IndexError, s)
      | r0 # _ \<Rightarrow>
          if r0 \<noteq> tag then
            (case get_response (serial_write command s) of
               (Returned response', s') \<Rightarrow> response_while tag command response' s'
             | (Raised e, s') \<Rightarrow> (Raised e, s')
             | (Blocked, s') \<Rightarrow> (Blocked, s'))
          else (Returned response, s))"
  by pat_completeness auto
termination
proof (relation "measure (\<lambda>(tag, command, response, s). length (pending s))")
  show "wf (measure (\<lambda>(tag, command, response, s). length (pending s)))"
    by simp
next
  fix tag :: string and command :: bytes and response :: "string list" and s :: serial
    and r0 :: string and rs :: "string list"
    and o' :: "string list outcome" and s' :: serial and response' :: "string list"
  assume "(o', s') = get_response (serial_write command s)" and "o' = Returned response'"
  then have g: "get_response (serial_write command s) = (Returned response', s')"
    by simp
  have "length (pending s') < length (pending s)"
  proof -
    let ?p = "pending s"
    from g have nl: "newline \<in> set ?p"
      and p': "pending s' = tl (dropWhile (\<lambda>c. c \<noteq> newline) ?p)"
      by (auto simp: get_response_def read_until_def serial_write_def Let_def
               split: if_splits sum.splits)
    from nl have "dropWhile (\<lambda>c. c \<noteq> newline) ?p \<noteq> []"
      by auto
    then have "length (tl (dropWhile (\<lambda>c. c \<noteq> newline) ?p))
                 < length (dropWhile (\<lambda>c. c \<noteq> newline) ?p)"
      by simp
    also have "\<dots> \<le> length ?p"
      by (rule length_dropWhile_le)
    finally show ?thesis using p' by simp
  qed
  then show "((tag, command, response', s'), (tag, command, response, s))
               \<in> measure (\<lambda>(tag, command, response, s). length (pending s))"
    by simp
qed

declare response_while.simps [simp del]

text \<open>
  The clause \<open>except (UnicodeDecodeError, ValueError)\<close> of \<open>get_yaw\<close> and \<open>offset\<close>: it
  logs a message and falls off the end of the method, which therefore returns \<open>None\<close>.
\<close>

definition except_decode_or_value ::
  "'a option outcome \<times> serial \<Rightarrow> 'a option outcome \<times> serial" where
  "except_decode_or_value r =
     (case r of
        (Raised e, s) \<Rightarrow>
          if e = UnicodeDecodeError \<or> e = ValueError then (Returned None, s)
          else (Raised e, s)
      | _ \<Rightarrow> r)"

text \<open>\<open>response[1]\<close>.\<close>

definition item1 :: "string list \<Rightarrow> py_error + string" where
  "item1 response = (case response of _ # r1 # _ \<Rightarrow> Inr r1 | _ \<Rightarrow> Inl IndexError)"

text \<open>
  \<open>MagnetObject.get_yaw\<close>: the body of the \<open>try\<close>, then the method. The first argument is
  the parameter of \<open>py_float\<close>.
\<close>

definition get_yaw_try ::
  "(string \<Rightarrow> float_value option) \<Rightarrow> serial \<Rightarrow> float_value option outcome \<times> serial" where
  "get_yaw_try unicode_float s =
     (let command = ''0,''
      in case get_response (serial_write (encode command) s) of
           (Returned response, s1) \<Rightarrow>
             (case response_while ''YAW'' (encode command) response s1 of
                (Returned response', s2) \<Rightarrow>
                  (case item1 response' of
                     Inl e \<Rightarrow> (Raised e, s2)
                   | Inr payload \<Rightarrow>
                       (case py_float unicode_float payload of
                          Inl e \<Rightarrow> (Raised e, s2)
                        | Inr yaw \<Rightarrow> (Returned (Some yaw), s2)))
              | (Raised e, s2) \<Rightarrow> (Raised e, s2)
              | (Blocked, s2) \<Rightarrow> (Blocked, s2))
         | (Raised e, s1) \<Rightarrow> (Raised e, s1)
         | (Blocked, s1) \<Rightarrow> (Blocked, s1))"

definition get_yaw ::
  "(string \<Rightarrow> float_value option) \<Rightarrow> serial \<Rightarrow> float_value option outcome \<times> serial" where
  "get_yaw unicode_float s = except_decode_or_value (get_yaw_try unicode_float s)"

text \<open>
  \<open>MagnetObject.offset(aruco_yaw)\<close>; \<open>fmt\<close> is Python's formatting of the argument inside
  the f-string, and \<open>bool(response[1])\<close> is true for a non-empty string.
\<close>

definition offset_try ::
  "('v \<Rightarrow> string) \<Rightarrow> 'v \<Rightarrow> serial \<Rightarrow> bool option outcome \<times> serial" where
  "offset_try fmt aruco_yaw s =
     (let command = ''1,'' @ fmt aruco_yaw @ [newline]
      in case get_response (serial_write (encode command) s) of
           (Returned response, s1) \<Rightarrow>
             (case response_while ''OFFSET'' (encode command) response s1 of
                (Returned response', s2) \<Rightarrow>
                  (case item1 response' of
                     Inl e \<Rightarrow> (Raised e, s2)
                   | Inr flag \<Rightarrow> (Returned (Some (flag \<noteq> [])), s2))
              | (Raised e, s2) \<Rightarrow> (Raised e, s2)
              | (Blocked, s2) \<Rightarrow> (Blocked, s2))
         | (Raised e, s1) \<Rightarrow> (Raised e, s1)
         | (Blocked, s1) \<Rightarrow> (Blocked, s1))"

definition offset :: "('v \<Rightarrow> string) \<Rightarrow> 'v \<Rightarrow> serial \<Rightarrow> bool option outcome \<times> serial" where
  "offset fmt aruco_yaw s = except_decode_or_value (offset_try fmt aruco_yaw s)"

text \<open>
  Notions for describing a run of these two methods. \<open>request_rounds\<close> names what both do
  first: send the command, read a response and enter the loop. \<open>lines_of\<close> cuts the bytes
  the device delivers into its complete, newline-terminated lines. The loop
  \<open>sends_again\<close> after a line exactly when the line decodes and its first comma-separated
  field differs from the tag; a line that does not decode ends the call instead, whatever
  its first field. \<open>exchanges\<close> is the trace of sending the command once for each of some
  lines and reading that line. \<open>yaw_reply\<close> is the value \<open>get_yaw\<close> returns on the line
  that ends its loop.
\<close>

definition request_rounds ::
  "string \<Rightarrow> bytes \<Rightarrow> serial \<Rightarrow> string list outcome \<times> serial" where
  "request_rounds tag command s =
     (case get_response (serial_write command s) of
        (Returned response, s1) \<Rightarrow> response_while tag command response s1
      | (Raised e, s1) \<Rightarrow> (Raised e, s1)
      | (Blocked, s1) \<Rightarrow> (Blocked, s1))"

definition lines_of :: "bytes \<Rightarrow> bytes list" where
  "lines_of input = map (\<lambda>l. l @ [newline]) (butlast (split_on newline input))"

definition sends_again :: "string \<Rightarrow> bytes \<Rightarrow> bool" where
  "sends_again tag line =
     (case decode line of
        Inl e \<Rightarrow> False
      | Inr str \<Rightarrow> hd (split_on CHR '','' str) \<noteq> tag)"

definition exchanges :: "bytes \<Rightarrow> bytes list \<Rightarrow> io_event list" where
  "exchanges command ls = concat (map (\<lambda>l. [Write command, Read l]) ls)"

definition yaw_reply :: "(string \<Rightarrow> float_value option) \<Rightarrow> bytes \<Rightarrow> float_value option" where
  "yaw_reply unicode_float line =
     (case decode line of
        Inl e \<Rightarrow> None
      | Inr str \<Rightarrow>
          (case split_on CHR '','' str of
             tag # payload # others \<Rightarrow>
               if tag = ''YAW''
               then (case py_float unicode_float payload of
                       Inl e \<Rightarrow> None
                     | Inr yaw \<Rightarrow> Some yaw)
               else None
           | _ \<Rightarrow> None))"

section \<open>Training orchestrator: \<open>scripts/gripper_trainer.py\<close>\<close>

text \<open>
  \<open>GripperTrainer.environment_step\<close> calls five collaborators whose code lies outside the
  file: the environment's \<open>step\<close> and \<open>get_object_pose\<close>, the recovery routine
  \<open>erh.handle_gripper_error_home\<close>, the gripper's \<open>close\<close> and the agent's
  \<open>save_models\<close>. Each is a parameter acting on an abstract world \<open>'w\<close> and either raises
  (\<open>Inl\<close>) or returns (\<open>Inr\<close>).
\<close>

datatype exn = EnvironmentError | GripperError | OtherError






section \<open>Concrete inputs\<close>

text \<open>
  A camera that never sees a marker, and a gripper stub that reports two joints and no
  error.
\<close>

definition blind_environment :: "unit environment" where
  "blind_environment = \<lparr>detections = (\<lambda>k. []), captured = 0, target_angle = 90, gripper = ()\<rparr>"

definition still_gripper :: "unit \<Rightarrow> unit \<Rightarrow> (real list \<times> bool) \<times> unit" where
  "still_gripper action g = (([512, 512], False), g)"

text \<open>
  A camera whose first two frames show nothing and whose later frames show only marker 7,
  never the tracked marker 0; and one that shows marker 0 at yaw 45 from the start.
\<close>

definition other_marker_environment :: "unit environment" where
  "other_marker_environment =
     \<lparr>detections = (\<lambda>k. if k < 2 then [] else [(7, ((0, 0, 0), (0, 0, 120)))]),
      captured = 0, target_angle = 90, gripper = ()\<rparr>"

definition sighted_environment :: "unit environment" where
  "sighted_environment =
     \<lparr>detections = (\<lambda>k. [(0, ((10, 20, 300), (0, 0, 45)))]),
      captured = 0, target_angle = 90, gripper = ()\<rparr>"

definition still_home :: "unit \<Rightarrow> (real list \<times> bool) \<times> unit" where
  "still_home g = (([512, 512], False), g)"

text \<open>
  Detection results for \<open>ArucoObject\<close>: a marker 5 that is never seen, and one that comes
  into view on the fourth frame with yaw 30.
\<close>

definition never_seen :: "nat \<Rightarrow> aruco_poses" where
  "never_seen k = []"

definition seen_on_fourth :: "nat \<Rightarrow> aruco_poses" where
  "seen_on_fourth k =
     (if k < 3 then [] else [(5, \<lparr>position = (40, 80, 310), orientation = (0, 0, 30)\<rparr>)])"




text \<open>
  Serial ports whose device answers: the yaw at once; another tag first; a non-numeric
  payload; bytes that are not UTF-8; a line whose first field is a byte that is not UTF-8,
  followed by the yaw; and an acknowledgement of a calibration.
\<close>

definition port_yaw :: serial where
  "port_yaw = \<lparr>pending = ''YAW,173.5'' @ [newline], trace = []\<rparr>"

definition port_other_first :: serial where
  "port_other_first =
     \<lparr>pending = ''OFFSET,1'' @ [newline] @ ''YAW,173.5'' @ [newline], trace = []\<rparr>"

definition port_not_numeric :: serial where
  "port_not_numeric =
     \<lparr>pending = ''YAW,abc'' @ [newline] @ ''YAW,1.0'' @ [newline], trace = []\<rparr>"

definition port_not_utf8 :: serial where
  "port_not_utf8 = \<lparr>pending = [CHR 0xFF, newline] @ ''YAW,1.0'' @ [newline], trace = []\<rparr>"

definition port_bad_first_field :: serial where
  "port_bad_first_field =
     \<lparr>pending = [CHR 0xFF] @ '',1'' @ [newline] @ ''YAW,173.5'' @ [newline], trace = []\<rparr>"

definition port_offset :: serial where
  "port_offset = \<lparr>pending = ''OFFSET,1'' @ [newline], trace = []\<rparr>"

section \<open>Properties of the rotation prototype\<close>

lemma detect_loop_spec:
  "detect_loop env mp a = (mp', a', env') \<Longrightarrow>
     detections env' = detections env \<and> target_angle env' = target_angle env
     \<and> gripper env' = gripper env
     \<and> a \<le> a' \<and> captured env' = captured env + (a' - a)
     \<and> (a \<le> 4 \<longrightarrow> a' \<le> 4)
     \<and> (a' = a \<longrightarrow> mp' = mp)
     \<and> (a < a' \<longrightarrow> mp = [] \<and> mp' = detections env (captured env + (a' - a) - 1)
           \<and> (\<forall>k. k + 1 < a' - a \<longrightarrow> detections env (captured env + k) = []))
     \<and> (mp' = [] \<longrightarrow> 4 \<le> a')"
proof (induction env mp a rule: detect_loop.induct)
  case (1 env marker_poses detect_attempts)
  show ?case
  proof (cases "length marker_poses = 0 \<and> detect_attempts < 4")
    case True
    let ?env1 = "env\<lparr>captured := captured env + 1\<rparr>"
    let ?mp1 = "detections env (captured env)"
    have "detect_loop env marker_poses detect_attempts
            = detect_loop ?env1 ?mp1 (detect_attempts + 1)"
      using True by (subst detect_loop.simps) simp
    with "1.prems" have run:
      "detect_loop ?env1 ?mp1 (detect_attempts + 1) = (mp', a', env')"
      by simp
    note IH = "1.IH" [OF True run]
    from IH have le: "detect_attempts + 1 \<le> a'" by simp
    have earlier: "detections env (captured env + k) = []"
      if k: "k + 1 < a' - detect_attempts" for k
    proof (cases k)
      case 0
      with k have "detect_attempts + 1 < a'" by simp
      with IH have "?mp1 = []" by simp
      with 0 show ?thesis by simp
    next
      case (Suc j)
      with k have "detect_attempts + 1 < a'" and "j + 1 < a' - (detect_attempts + 1)"
        by simp_all
      with IH have "detections ?env1 (captured ?env1 + j) = []" by blast
      with Suc show ?thesis by simp
    qed
    have final: "mp' = detections env (captured env + (a' - detect_attempts) - 1)"
    proof (cases "a' = detect_attempts + 1")
      case True
      with IH show ?thesis by simp
    next
      case False
      with le have lt: "detect_attempts + 1 < a'" by simp
      with IH have "mp' = detections ?env1 (captured ?env1 + (a' - (detect_attempts + 1)) - 1)"
        by blast
      moreover from lt have
        "captured ?env1 + (a' - (detect_attempts + 1)) - 1
           = captured env + (a' - detect_attempts) - 1"
        by simp
      ultimately show ?thesis by simp
    qed
    from IH le True earlier final show ?thesis
      by auto
  next
    case False
    then have "detect_loop env marker_poses detect_attempts
                 = (marker_poses, detect_attempts, env)"
      by (subst detect_loop.simps) (simp only: False if_False)
    with "1.prems" False show ?thesis
      by auto
  qed
qed


lemma get_marker_pose_keeps:
  "target_angle (snd (get_marker_pose env marker_id)) = target_angle env"
  "gripper (snd (get_marker_pose env marker_id)) = gripper env"
  "detections (snd (get_marker_pose env marker_id)) = detections env"
proof -
  obtain mp n env' where run: "detect_loop env [] 0 = (mp, n, env')"
    by (metis prod_cases3)
  from detect_loop_spec [OF run] run
  show "target_angle (snd (get_marker_pose env marker_id)) = target_angle env"
    and "gripper (snd (get_marker_pose env marker_id)) = gripper env"
    and "detections (snd (get_marker_pose env marker_id)) = detections env"
    by (simp_all add: get_marker_pose_def)
qed

lemma step_unfold:
  "step move env action =
     ((fst (fst (move action (gripper env))) @
         [case step_final_pose move env action of None \<Rightarrow> - 1 | Some p \<Rightarrow> pose_yaw p],
       fst (reward_function (target_angle env) (step_start_pose env)
              (step_final_pose move env action) (snd (fst (move action (gripper env))))),
       snd (reward_function (target_angle env) (step_start_pose env)
              (step_final_pose move env action) (snd (fst (move action (gripper env))))),
       False),
      snd (get_marker_pose
             (snd (get_marker_pose env 0)\<lparr>gripper := snd (move action (gripper env))\<rparr>) 0))"
  by (simp add: step_def step_start_pose_def step_final_pose_def Let_def case_prod_beta
        get_marker_pose_keeps)

text \<open>
  Claim C1. Whenever the pose read before the move or the pose read after the move yields no
  pose, \<open>Environment.step\<close> returns reward 0 and terminated = true, whatever the action,
  the target and the other pose are; the reward functions of the rotation prototype and of
  \<open>TranslationEnvironment\<close> return \<open>(0, True)\<close> as soon as one of their two poses is
  \<open>None\<close>.
\<close>

theorem missing_pose_zero_reward_done:
  "(step_start_pose env = None \<or> step_final_pose move env action = None \<longrightarrow>
      fst (snd (fst (step move env action))) = 0
      \<and> fst (snd (snd (fst (step move env action)))) = True)
   \<and> (start_marker_pose = None \<or> final_marker_pose = None \<longrightarrow>
        reward_function target start_marker_pose final_marker_pose gripper_error = (0, True))
   \<and> (goal_before = None \<or> goal_after = None \<longrightarrow>
        translation_reward_function noise_tolerance target_goal goal_before goal_after
          = Inr (0, True))"
proof (intro conjI impI)
  assume "step_start_pose env = None \<or> step_final_pose move env action = None"
  then have r: "reward_function (target_angle env) (step_start_pose env)
          (step_final_pose move env action) (snd (fst (move action (gripper env)))) = (0, True)"
    by (auto simp: reward_function_def split: option.splits)
  show "fst (snd (fst (step move env action))) = 0"
    by (simp add: step_unfold r)
  show "fst (snd (snd (fst (step move env action)))) = True"
    by (simp add: step_unfold r)
next
  assume "start_marker_pose = None \<or> final_marker_pose = None"
  then show "reward_function target start_marker_pose final_marker_pose gripper_error = (0, True)"
    by (auto simp: reward_function_def split: option.splits)
next
  assume "goal_before = None \<or> goal_after = None"
  then show "translation_reward_function noise_tolerance target_goal goal_before goal_after
          = Inr (0, True)"
    by (auto simp: translation_reward_function_def split: option.splits)
qed

theorem missing_pose_zero_reward_done_witness:
  "step_start_pose blind_environment = None
   \<and> fst (snd (fst (step still_gripper blind_environment ()))) = 0
   \<and> fst (snd (snd (fst (step still_gripper blind_environment ())))) = True
   \<and> reward_function 90 None (Some ((0, 0, 0), (0, 0, 91))) False = (0, True)
   \<and> translation_reward_function 15 [300, 200] (Some [250, 180, 0]) None = Inr (0, True)"
proof -
  have h: "step_start_pose blind_environment = None"
    by (simp add: step_start_pose_def get_marker_pose_def blind_environment_def
          detect_loop.simps)
  show ?thesis
    using h missing_pose_zero_reward_done [of blind_environment still_gripper "()"
        None "Some ((0, 0, 0), (0, 0, 91))" 90 False "Some [250, 180, 0]" None 15 "[300, 200]"]
    by simp
qed


text \<open>
  Claim C10. \<open>get_marker_pose\<close> always returns, after at least one and at most four frame
  captures. Every capture before the last one detected nothing, and the loop stops before
  the fourth capture only on a non-empty detection result, whichever markers it holds. The
  pose returned is the entry of the requested marker in the final detection result, so it
  is \<open>None\<close> exactly when the marker is absent from that result.
\<close>

theorem get_marker_pose_bounded:
  "case get_marker_pose env marker_id of
     (marker_pose, env') \<Rightarrow>
       (let n = captured env' - captured env;
            final = detections env (captured env + n - 1)
        in captured env' = captured env + n \<and> 1 \<le> n \<and> n \<le> 4
           \<and> (\<forall>k. k + 1 < n \<longrightarrow> detections env (captured env + k) = [])
           \<and> (n < 4 \<longrightarrow> final \<noteq> [])
           \<and> marker_pose = map_of final marker_id
           \<and> (marker_pose = None \<longleftrightarrow> marker_id \<notin> fst ` set final))"
proof -
  obtain mp n env' where run: "detect_loop env [] 0 = (mp, n, env')"
    by (metis prod_cases3)
  note spec = detect_loop_spec [OF run]
  have pos: "0 < n"
  proof (rule ccontr)
    assume "\<not> 0 < n"
    then have "n = 0" by simp
    with spec have "mp = []" by simp
    with spec have "4 \<le> n" by simp
    with \<open>n = 0\<close> show False by simp
  qed
  from spec have cap: "captured env' = captured env + n" by simp
  from spec pos have fin: "mp = detections env (captured env + n - 1)" by simp
  from spec pos have earlier: "\<forall>k. k + 1 < n \<longrightarrow> detections env (captured env + k) = []"
    by simp
  from spec have le: "n \<le> 4" by simp
  from spec have stop: "n < 4 \<longrightarrow> mp \<noteq> []" by auto
  have res: "get_marker_pose env marker_id = (map_of mp marker_id, env')"
    unfolding get_marker_pose_def run prod.case
    by (cases "map_of mp marker_id") (simp_all only: if_True if_False not_None_eq simp_thms option.simps)
  have absent: "map_of mp marker_id = None \<longleftrightarrow> marker_id \<notin> fst ` set mp"
    by (rule map_of_eq_None_iff)
  from pos le cap fin earlier stop absent show ?thesis
    by (simp add: res Let_def)
qed

theorem get_marker_pose_bounded_witness:
  "get_marker_pose other_marker_environment 0
     = (None, other_marker_environment\<lparr>captured := 3\<rparr>)
   \<and> detections other_marker_environment 2 \<noteq> []
   \<and> 0 \<notin> fst ` set (detections other_marker_environment 2)"
  using get_marker_pose_bounded [of other_marker_environment 0]
  by (simp add: get_marker_pose_def other_marker_environment_def detect_loop.simps)


text \<open>
  Claim C4, as stated, fails: with target angle 90 and a final yaw of 91 the episode does
  terminate, but the reward is not 500. Starting from a yaw of 80 it is 109: the progress
  \<open>|90 - 80| - |90 - 91| = 9\<close> plus the bonus of 100.
\<close>

theorem rotation_goal_reward_counterexample:
  "reward_function 90 (Some ((0, 0, 0), (0, 0, 80))) (Some ((0, 0, 0), (0, 0, 91))) False
     = (109, True)
   \<and> reward_function 90 (Some ((0, 0, 0), (0, 0, 80))) (Some ((0, 0, 0), (0, 0, 91))) False
     \<noteq> (500, True)"
  by (simp add: reward_function_def pose_yaw_def)

text \<open>
  Claim C4, amended. For target angle 90 (tolerance 3, fixed in the code), both poses
  available and a final yaw of 91, the reward function returns terminated = true and the
  reward \<open>100 + p\<close>, where \<open>p\<close> is the progress \<open>|90 - yaw_before| - 1\<close> when that lies
  outside \<open>[-3, 3]\<close> and 0 otherwise; for a pre-move yaw in \<open>[0, 360)\<close> the reward lies
  between 100 and 369.
\<close>

theorem rotation_goal_reward:
  "pose_yaw final = 91 \<Longrightarrow>
     reward_function 90 (Some start) (Some final) gripper_error
       = ((if - 3 \<le> abs (90 - pose_yaw start) - 1 \<and> abs (90 - pose_yaw start) - 1 \<le> 3
           then 0 else abs (90 - pose_yaw start) - 1) + 100, True)
     \<and> (0 \<le> pose_yaw start \<and> pose_yaw start < 360 \<longrightarrow>
          100 \<le> fst (reward_function 90 (Some start) (Some final) gripper_error)
          \<and> fst (reward_function 90 (Some start) (Some final) gripper_error) \<le> 369)"
  by (auto simp: reward_function_def Let_def)

theorem rotation_goal_reward_witness:
  "pose_yaw ((0, 0, 0), (0, 0, 91)) = 91
   \<and> reward_function 90 (Some ((0, 0, 0), (0, 0, 91))) (Some ((0, 0, 0), (0, 0, 91))) False
       = (100, True)"
proof -
  have h: "pose_yaw ((0, 0, 0), (0, 0, 91)) = 91"
    by (simp add: pose_yaw_def)
  show ?thesis
    using h rotation_goal_reward [OF h, of "((0, 0, 0), (0, 0, 91))" False]
    by simp
qed


text \<open>
  Claim C9. When the marker pose read by \<open>reset\<close>, or the post-move pose read by \<open>step\<close>,
  is unavailable, the observation returned is the gripper's state with the sentinel
  \<open>-1\<close> appended as its yaw element; when the pose is available the appended element is
  its yaw, and a yaw in \<open>[0, 360)\<close> is never the sentinel.
\<close>

theorem missing_pose_yaw_sentinel:
  "(reset_pose home env = None \<longrightarrow>
      fst (fst (reset home rnd env)) = fst (fst (home (gripper env))) @ [- 1])
   \<and> (step_final_pose move env action = None \<longrightarrow>
      fst (fst (step move env action)) = fst (fst (move action (gripper env))) @ [- 1])
   \<and> (reset_pose home env = Some p \<longrightarrow>
      fst (fst (reset home rnd env)) = fst (fst (home (gripper env))) @ [pose_yaw p])
   \<and> (step_final_pose move env action = Some q \<longrightarrow>
      fst (fst (step move env action)) = fst (fst (move action (gripper env))) @ [pose_yaw q])
   \<and> (0 \<le> pose_yaw p \<and> pose_yaw p < 360 \<longrightarrow> pose_yaw p \<noteq> - 1)"
  by (auto simp: step_unfold reset_def reset_pose_def Let_def case_prod_beta)

theorem missing_pose_yaw_sentinel_witness:
  "reset_pose still_home blind_environment = None
   \<and> fst (fst (reset still_home 1 blind_environment)) = [512, 512, - 1]
   \<and> step_final_pose still_gripper blind_environment () = None
   \<and> fst (fst (step still_gripper blind_environment ())) = [512, 512, - 1]
   \<and> reset_pose still_home sighted_environment = Some ((10, 20, 300), (0, 0, 45))
   \<and> fst (fst (reset still_home 1 sighted_environment)) = [512, 512, 45]
   \<and> step_final_pose still_gripper sighted_environment () = Some ((10, 20, 300), (0, 0, 45))
   \<and> fst (fst (step still_gripper sighted_environment ())) = [512, 512, 45]"
proof -
  have h1: "reset_pose still_home blind_environment = None"
    by (simp add: reset_pose_def still_home_def get_marker_pose_def blind_environment_def
          detect_loop.simps)
  have h2: "step_final_pose still_gripper blind_environment () = None"
    by (simp add: step_final_pose_def still_gripper_def get_marker_pose_def
          blind_environment_def detect_loop.simps)
  have h3: "reset_pose still_home sighted_environment = Some ((10, 20, 300), (0, 0, 45))"
    by (simp add: reset_pose_def still_home_def get_marker_pose_def sighted_environment_def
          detect_loop.simps)
  have h4: "step_final_pose still_gripper sighted_environment ()
              = Some ((10, 20, 300), (0, 0, 45))"
    by (simp add: step_final_pose_def still_gripper_def get_marker_pose_def
          sighted_environment_def detect_loop.simps)
  show ?thesis
    using h1 h2 h3 h4
      missing_pose_yaw_sentinel [of still_home blind_environment 1 still_gripper "()"]
      missing_pose_yaw_sentinel [of still_home sighted_environment 1 still_gripper "()"
        "((10, 20, 300), (0, 0, 45))" "((10, 20, 300), (0, 0, 45))"]
    by (simp add: still_home_def still_gripper_def pose_yaw_def)
qed


section \<open>Properties of the translation rewards\<close>

lemma two_or_more:
  "2 \<le> length v \<Longrightarrow> \<exists>x y rest. v = x # y # rest"
  by (cases v; cases "tl v") auto

lemma np_norm_xy:
  assumes "2 \<le> length p" and "2 \<le> length q"
  shows "np_sub (take 2 p) (take 2 q) = Inr [p ! 0 - q ! 0, p ! 1 - q ! 1]"
    and "np_linalg_norm [p ! 0 - q ! 0, p ! 1 - q ! 1] = euclidean_distance_xy p q"
proof -
  from assms obtain a b ps c d qs where "p = a # b # ps" and "q = c # d # qs"
    using two_or_more by blast
  then show "np_sub (take 2 p) (take 2 q) = Inr [p ! 0 - q ! 0, p ! 1 - q ! 1]"
    by (simp add: np_sub_def numeral_2_eq_2)
  show "np_linalg_norm [p ! 0 - q ! 0, p ! 1 - q ! 1] = euclidean_distance_xy p q"
    by (simp add: np_linalg_norm_def euclidean_distance_xy_def)
qed

lemma math_dist_xy:
  assumes "length g = 2" and "2 \<le> length q"
  shows "math_dist g (take 2 q) = Inr (euclidean_distance_xy g q)"
proof -
  from assms obtain a b c d qs where "g = [a, b]" and "q = c # d # qs"
    using two_or_more [of g] two_or_more [of q] by auto
  then show ?thesis
    by (simp add: math_dist_def euclidean_distance_xy_def numeral_2_eq_2)
qed

lemma translation_reward_xy:
  assumes "2 \<le> length target_goal" and "2 \<le> length after"
  shows "translation_reward_function noise_tolerance target_goal (Some before) (Some after)
           = (if euclidean_distance_xy target_goal after \<le> noise_tolerance
              then Inr (500, True)
              else Inr (- euclidean_distance_xy target_goal after, False))"
  using np_norm_xy [OF assms]
  by (simp add: translation_reward_function_def Let_def)

lemma two_finger_reward_xy:
  assumes "length (goal cur) = 2" and "2 \<le> length (object_position prev)"
    and "2 \<le> length (object_position cur)"
  shows "two_finger_reward_function noise_tolerance prev cur
           = (if euclidean_distance_xy (goal cur) (object_position cur) \<le> noise_tolerance
              then Inr (500, True)
              else Inr (euclidean_distance_xy (goal cur) (object_position prev)
                        - euclidean_distance_xy (goal cur) (object_position cur), False))"
  using math_dist_xy [OF assms(1) assms(2)] math_dist_xy [OF assms(1) assms(3)]
  by (simp add: two_finger_reward_function_def Let_def)

text \<open>
  Claim C3, as stated, fails for \<open>TwoFingerTranslation._reward_function\<close>: with tolerance
  1, goal \<open>(0, 0)\<close> and the object moving from \<open>(0, 10)\<close> to \<open>(0, 5)\<close>, the distance after
  the move is 5, outside the tolerance, and the reward is the progress \<open>10 - 5 = 5\<close>, not
  \<open>-5\<close>.
\<close>

theorem translation_reward_counterexample:
  "two_finger_reward_function 1 \<lparr>goal = [0, 0], object_position = [0, 10, 0]\<rparr>
      \<lparr>goal = [0, 0], object_position = [0, 5, 0]\<rparr> = Inr (5, False)
   \<and> math_dist [0, 0] (take 2 [0, 5, 0]) = Inr 5
   \<and> two_finger_reward_function 1 \<lparr>goal = [0, 0], object_position = [0, 10, 0]\<rparr>
      \<lparr>goal = [0, 0], object_position = [0, 5, 0]\<rparr> \<noteq> Inr (- 5, False)"
proof -
  have a: "sqrt 100 = 10" using real_sqrt_abs [of 10] by simp
  have b: "sqrt 25 = 5" using real_sqrt_abs [of 5] by simp
  show ?thesis
    by (simp add: two_finger_reward_function_def math_dist_def a b numeral_2_eq_2)
qed

text \<open>
  Claim C3, amended. With both object poses available (goal and positions of at least two
  coordinates), both translation rewards return reward 500 and done = true when the
  Euclidean distance between the goal and the post-move object position is at most
  \<open>noise_tolerance\<close>, and done = false otherwise. Outside the tolerance the reward of
  \<open>TranslationEnvironment.reward_function\<close> is the negative of that distance, a continuous
  function of the distance; the reward of \<open>TwoFingerTranslation._reward_function\<close> is the
  progress, the distance before the move minus the distance after it.
\<close>

theorem translation_reward:
  "(2 \<le> length target_goal \<and> 2 \<le> length after \<longrightarrow>
      translation_reward_function noise_tolerance target_goal (Some before) (Some after)
        = (if euclidean_distance_xy target_goal after \<le> noise_tolerance
           then Inr (500, True)
           else Inr (- euclidean_distance_xy target_goal after, False)))
   \<and> (length (goal cur) = 2 \<and> 2 \<le> length (object_position prev)
        \<and> 2 \<le> length (object_position cur) \<longrightarrow>
      two_finger_reward_function noise_tolerance prev cur
        = (if euclidean_distance_xy (goal cur) (object_position cur) \<le> noise_tolerance
           then Inr (500, True)
           else Inr (euclidean_distance_xy (goal cur) (object_position prev)
                     - euclidean_distance_xy (goal cur) (object_position cur), False)))
   \<and> (\<exists>f. continuous_on {d. noise_tolerance < d} f
          \<and> (\<forall>t b a. 2 \<le> length t \<and> 2 \<le> length a
                 \<and> noise_tolerance < euclidean_distance_xy t a \<longrightarrow>
               translation_reward_function noise_tolerance t (Some b) (Some a)
                 = Inr (f (euclidean_distance_xy t a), False)))"
proof (intro conjI impI)
  assume "2 \<le> length target_goal \<and> 2 \<le> length after"
  then show "translation_reward_function noise_tolerance target_goal (Some before) (Some after)
        = (if euclidean_distance_xy target_goal after \<le> noise_tolerance
           then Inr (500, True)
           else Inr (- euclidean_distance_xy target_goal after, False))"
    by (simp add: translation_reward_xy)
next
  assume "length (goal cur) = 2 \<and> 2 \<le> length (object_position prev)
        \<and> 2 \<le> length (object_position cur)"
  then show "two_finger_reward_function noise_tolerance prev cur
        = (if euclidean_distance_xy (goal cur) (object_position cur) \<le> noise_tolerance
           then Inr (500, True)
           else Inr (euclidean_distance_xy (goal cur) (object_position prev)
                     - euclidean_distance_xy (goal cur) (object_position cur), False))"
    by (simp add: two_finger_reward_xy)
next
  have "continuous_on {d. noise_tolerance < d} (\<lambda>d::real. - d)"
    by (intro continuous_intros)
  moreover have "\<forall>t b a. 2 \<le> length t \<and> 2 \<le> length a
                 \<and> noise_tolerance < euclidean_distance_xy t a \<longrightarrow>
               translation_reward_function noise_tolerance t (Some b) (Some a)
                 = Inr (- euclidean_distance_xy t a, False)"
    by (simp add: translation_reward_xy)
  ultimately show "\<exists>f. continuous_on {d. noise_tolerance < d} f
          \<and> (\<forall>t b a. 2 \<le> length t \<and> 2 \<le> length a
                 \<and> noise_tolerance < euclidean_distance_xy t a \<longrightarrow>
               translation_reward_function noise_tolerance t (Some b) (Some a)
                 = Inr (f (euclidean_distance_xy t a), False))"
    by blast
qed

theorem translation_reward_witness:
  "translation_reward_function 15 [300, 200] (Some [250, 180, 0]) (Some [303, 204, 0])
     = Inr (500, True)
   \<and> translation_reward_function 15 [300, 200] (Some [250, 180, 0]) (Some [270, 160, 0])
     = Inr (- 50, False)
   \<and> two_finger_reward_function 15 \<lparr>goal = [30, 90], object_position = [90, 10, 0]\<rparr>
        \<lparr>goal = [30, 90], object_position = [60, 50, 0]\<rparr> = Inr (50, False)
   \<and> two_finger_reward_function 15 \<lparr>goal = [30, 90], object_position = [90, 10, 0]\<rparr>
        \<lparr>goal = [30, 90], object_position = [33, 94, 0]\<rparr> = Inr (500, True)"
proof -
  have a: "sqrt 25 = 5" using real_sqrt_abs [of 5] by simp
  have b: "sqrt 2500 = 50" using real_sqrt_abs [of 50] by simp
  have c: "sqrt 10000 = 100" using real_sqrt_abs [of 100] by simp
  show ?thesis
    using translation_reward [of "[300, 200]" "[303, 204, 0]" 15 "[250, 180, 0]"
        "\<lparr>goal = [30, 90], object_position = [60, 50, 0]\<rparr>"
        "\<lparr>goal = [30, 90], object_position = [90, 10, 0]\<rparr>"]
      translation_reward [of "[300, 200]" "[270, 160, 0]" 15 "[250, 180, 0]"
        "\<lparr>goal = [30, 90], object_position = [33, 94, 0]\<rparr>"
        "\<lparr>goal = [30, 90], object_position = [90, 10, 0]\<rparr>"]
    by (simp add: euclidean_distance_xy_def a b c)
qed


section \<open>Properties of the pose sources\<close>

lemma aruco_loop_gives_up:
  assumes "\<forall>k. attempt \<le> k \<and> int k < n \<longrightarrow> map_of (frames k) marker = None"
    and "int attempt \<le> n"
  shows "aruco_get_yaw_loop frames marker True n attempt = Some (None, nat n)"
  using assms
proof (induction "nat n - attempt" arbitrary: attempt)
  case 0
  then have "int attempt = n" by simp
  then show ?case
    by (subst aruco_get_yaw_loop.simps) auto
next
  case (Suc d)
  then have lt: "int attempt < n" by simp
  with Suc.prems have absent: "map_of (frames attempt) marker = None"
    by simp
  have "aruco_get_yaw_loop frames marker True n attempt
          = aruco_get_yaw_loop frames marker True n (attempt + 1)"
    using lt absent by (subst aruco_get_yaw_loop.simps) simp
  also have "\<dots> = Some (None, nat n)"
  proof (rule Suc.hyps(1))
    from Suc.hyps(2) show "d = nat n - (attempt + 1)" by simp
    from Suc.prems(1) show
      "\<forall>k. attempt + 1 \<le> k \<and> int k < n \<longrightarrow> map_of (frames k) marker = None"
      by simp
    from lt show "int (attempt + 1) \<le> n" by simp
  qed
  finally show ?case .
qed

lemma aruco_loop_finds:
  assumes "attempt \<le> j" and "int j < n" and "map_of (frames j) marker = Some pose"
    and "\<forall>k. attempt \<le> k \<and> k < j \<longrightarrow> map_of (frames k) marker = None"
  shows "aruco_get_yaw_loop frames marker blindable n attempt
           = Some (Some (orientation_yaw pose), j + 1)"
  using assms
proof (induction "j - attempt" arbitrary: attempt)
  case 0
  then have "attempt = j" by simp
  with 0 show ?case
    by (subst aruco_get_yaw_loop.simps) simp
next
  case (Suc d)
  then have lt: "attempt < j" by simp
  with Suc.prems have absent: "map_of (frames attempt) marker = None"
    and go: "int attempt < n"
    by simp_all
  have "aruco_get_yaw_loop frames marker blindable n attempt
          = aruco_get_yaw_loop frames marker blindable n (attempt + 1)"
    using go absent by (subst aruco_get_yaw_loop.simps) simp
  also have "\<dots> = Some (Some (orientation_yaw pose), j + 1)"
  proof (rule Suc.hyps(1))
    from Suc.hyps(2) show "d = j - (attempt + 1)" by simp
    from lt show "attempt + 1 \<le> j" by simp
    from Suc.prems show "int j < n" and "map_of (frames j) marker = Some pose"
      by simp_all
    from Suc.prems(4) show
      "\<forall>k. attempt + 1 \<le> k \<and> k < j \<longrightarrow> map_of (frames k) marker = None"
      by simp
  qed
  finally show ?case .
qed

text \<open>
  Claim C6. \<open>ArucoObject.get_yaw\<close> with \<open>blindable = True\<close> and \<open>detection_attempts = 10\<close>
  returns: when the tracked marker is in none of the first ten detection results, it
  returns \<open>None\<close> after exactly ten attempts; when the marker is in the result of some
  attempt among the ten, it returns the yaw of that marker's pose, at the first such
  attempt.
\<close>

theorem aruco_get_yaw_ten_attempts:
  "((\<forall>k. k < 10 \<longrightarrow> map_of (frames k) marker = None) \<longrightarrow>
      aruco_get_yaw frames marker True 10 = Some (None, 10))
   \<and> (j < 10 \<and> map_of (frames j) marker = Some pose
        \<and> (\<forall>k. k < j \<longrightarrow> map_of (frames k) marker = None) \<longrightarrow>
      aruco_get_yaw frames marker True 10 = Some (Some (orientation_yaw pose), j + 1))"
proof (intro conjI impI)
  assume "\<forall>k. k < 10 \<longrightarrow> map_of (frames k) marker = None"
  then have "aruco_get_yaw_loop frames marker True 10 0 = Some (None, nat 10)"
    by (intro aruco_loop_gives_up) simp_all
  then show "aruco_get_yaw frames marker True 10 = Some (None, 10)"
    by (simp add: aruco_get_yaw_def)
next
  assume "j < 10 \<and> map_of (frames j) marker = Some pose
        \<and> (\<forall>k. k < j \<longrightarrow> map_of (frames k) marker = None)"
  then have "aruco_get_yaw_loop frames marker True 10 0
               = Some (Some (orientation_yaw pose), j + 1)"
    by (intro aruco_loop_finds) simp_all
  then show "aruco_get_yaw frames marker True 10 = Some (Some (orientation_yaw pose), j + 1)"
    by (simp add: aruco_get_yaw_def)
qed

theorem aruco_get_yaw_ten_attempts_witness:
  "aruco_get_yaw never_seen 5 True 10 = Some (None, 10)
   \<and> map_of (seen_on_fourth 3) 5
       = Some \<lparr>position = (40, 80, 310), orientation = (0, 0, 30)\<rparr>
   \<and> aruco_get_yaw seen_on_fourth 5 True 10 = Some (Some 30, 4)"
proof -
  have absent: "\<forall>k. k < 10 \<longrightarrow> map_of (never_seen k) 5 = None"
    by (simp add: never_seen_def)
  have present: "3 < (10::nat) \<and> map_of (seen_on_fourth 3) 5
                   = Some \<lparr>position = (40, 80, 310), orientation = (0, 0, 30)\<rparr>
                 \<and> (\<forall>k. k < 3 \<longrightarrow> map_of (seen_on_fourth k) 5 = None)"
    by (simp add: seen_on_fourth_def)
  show ?thesis
    using absent present aruco_get_yaw_ten_attempts [of never_seen 5]
      aruco_get_yaw_ten_attempts [of seen_on_fourth 5 3
        "\<lparr>position = (40, 80, 310), orientation = (0, 0, 30)\<rparr>"]
    by (simp add: orientation_yaw_def)
qed

section \<open>Properties of the magnetic sensor protocol\<close>

lemma split_on_not_Nil: "split_on sep cs \<noteq> []"
  by (induction cs) (auto split: list.splits)

lemma split_on_absent: "sep \<notin> set cs \<Longrightarrow> split_on sep cs = [cs]"
  by (induction cs) auto

lemma split_on_present:
  "sep \<in> set cs \<Longrightarrow>
     split_on sep cs
       = takeWhile (\<lambda>c. c \<noteq> sep) cs # split_on sep (tl (dropWhile (\<lambda>c. c \<noteq> sep) cs))"
proof (induction cs)
  case Nil
  then show ?case by simp
next
  case (Cons c cs)
  show ?case
  proof (cases "c = sep")
    case True
    then show ?thesis by simp
  next
    case False
    with Cons.prems have "sep \<in> set cs" by simp
    from Cons.IH [OF this] False show ?thesis by simp
  qed
qed

lemma lines_of_absent: "newline \<notin> set input \<Longrightarrow> lines_of input = []"
  by (simp add: lines_of_def split_on_absent)

lemma lines_of_present:
  "newline \<in> set input \<Longrightarrow>
     lines_of input
       = (takeWhile (\<lambda>c. c \<noteq> newline) input @ [newline])
         # lines_of (tl (dropWhile (\<lambda>c. c \<noteq> newline) input))"
  by (simp add: lines_of_def split_on_present split_on_not_Nil)

lemma lines_of_Nil_iff: "lines_of input = [] \<longleftrightarrow> newline \<notin> set input"
  using lines_of_absent lines_of_present by (metis list.distinct(1))

lemma get_response_lines:
  "get_response (serial_write command s) =
     (case lines_of (pending s) of
        [] \<Rightarrow> (Blocked, s\<lparr>trace := trace s @ [Write command]\<rparr>)
      | l # ls \<Rightarrow>
          (case decode l of Inl e \<Rightarrow> Raised e | Inr str \<Rightarrow> Returned (split_on CHR '','' str),
           s\<lparr>pending := tl (dropWhile (\<lambda>c. c \<noteq> newline) (pending s)),
             trace := trace s @ [Write command, Read l]\<rparr>))"
proof (cases "newline \<in> set (pending s)")
  case True
  then show ?thesis
    by (simp add: lines_of_present get_response_def read_until_def serial_write_def Let_def
             split: sum.splits)
next
  case False
  then show ?thesis
    by (simp add: lines_of_absent get_response_def read_until_def serial_write_def)
qed


lemma response_while_step:
  "response_while tag command (r0 # rs) s =
     (if r0 \<noteq> tag then request_rounds tag command s else (Returned (r0 # rs), s))"
  by (subst response_while.simps) (simp add: request_rounds_def)

lemma request_rounds_lines:
  "lines_of (pending s) = ls \<Longrightarrow>
     fst (request_rounds tag command s)
       = (case dropWhile (sends_again tag) ls of
            [] \<Rightarrow> Blocked
          | l # rest \<Rightarrow>
              (case decode l of
                 Inl e \<Rightarrow> Raised e
               | Inr str \<Rightarrow> Returned (split_on CHR '','' str)))
     \<and> trace (snd (request_rounds tag command s))
       = trace s @ exchanges command (takeWhile (sends_again tag) ls)
         @ (case dropWhile (sends_again tag) ls of
              [] \<Rightarrow> [Write command]
            | l # rest \<Rightarrow> [Write command, Read l])"
proof (induction ls arbitrary: s)
  case Nil
  then show ?case
    by (simp add: request_rounds_def get_response_lines exchanges_def)
next
  case (Cons l ls)
  let ?s1 = "s\<lparr>pending := tl (dropWhile (\<lambda>c. c \<noteq> newline) (pending s)),
                 trace := trace s @ [Write command, Read l]\<rparr>"
  from Cons.prems have present: "newline \<in> set (pending s)"
    using lines_of_Nil_iff [of "pending s"] by auto
  with Cons.prems have rest: "lines_of (pending ?s1) = ls"
    by (simp add: lines_of_present)
  show ?case
  proof (cases "decode l")
    case (Inl e)
    then have "\<not> sends_again tag l" by (simp add: sends_again_def)
    with Inl Cons.prems show ?thesis
      by (simp add: request_rounds_def get_response_lines exchanges_def)
  next
    case (Inr str)
    obtain r0 rs where fields: "split_on CHR '','' str = r0 # rs"
      using split_on_not_Nil [of "CHR '',''" str] by (cases "split_on CHR '','' str") auto
    show ?thesis
    proof (cases "r0 = tag")
      case True
      with Inr fields have "\<not> sends_again tag l" by (simp add: sends_again_def)
      with Inr fields True Cons.prems show ?thesis
        by (simp add: request_rounds_def get_response_lines exchanges_def response_while_step)
    next
      case False
      with Inr fields have other: "sends_again tag l" by (simp add: sends_again_def)
      from Inr fields False Cons.prems
      have "request_rounds tag command s = request_rounds tag command ?s1"
        by (simp add: request_rounds_def [of tag command s] get_response_lines
              response_while_step)
      with Cons.IH [OF rest] other show ?thesis
        by (simp add: exchanges_def)
    qed
  qed
qed


lemma lines_of_terminated: "l \<in> set (lines_of input) \<Longrightarrow> \<exists>body. l = body @ [newline]"
  by (auto simp: lines_of_def)

lemma tagged_line_has_payload:
  assumes "split_on CHR '','' (body @ [newline]) = r0 # rs" and "newline \<notin> set r0"
  shows "rs \<noteq> []"
proof (cases "CHR '','' \<in> set (body @ [newline])")
  case True
  from split_on_present [OF True] assms(1) show ?thesis
    by (simp add: split_on_not_Nil)
next
  case False
  from split_on_absent [OF False] assms(1) have "r0 = body @ [newline]" by simp
  with assms(2) show ?thesis by simp
qed

lemma decode_cases:
  "decode bs = Inr bs \<or> decode bs = Inl UnicodeDecodeError"
  by (simp add: decode_def)

lemma py_float_error: "py_float uf str = Inl e \<Longrightarrow> e = ValueError"
  by (auto simp: py_float_def ascii_float_def split: prod.splits if_splits option.splits)

lemma get_yaw_try_rounds:
  "get_yaw_try uf s =
     (case request_rounds ''YAW'' ''0,'' s of
        (Returned response, s2) \<Rightarrow>
          (case item1 response of
             Inl e \<Rightarrow> (Raised e, s2)
           | Inr payload \<Rightarrow>
               (case py_float uf payload of
                  Inl e \<Rightarrow> (Raised e, s2)
                | Inr yaw \<Rightarrow> (Returned (Some yaw), s2)))
      | (Raised e, s2) \<Rightarrow> (Raised e, s2)
      | (Blocked, s2) \<Rightarrow> (Blocked, s2))"
  by (simp add: get_yaw_try_def request_rounds_def encode_def Let_def
           split: prod.splits outcome.splits)

lemma get_yaw_trace: "trace (snd (get_yaw uf s)) = trace (snd (request_rounds ''YAW'' ''0,'' s))"
proof -
  obtain out s2 where rr: "request_rounds ''YAW'' ''0,'' s = (out, s2)"
    by (cases "request_rounds ''YAW'' ''0,'' s") auto
  show ?thesis
    by (cases out)
       (simp_all add: get_yaw_def get_yaw_try_rounds rr except_decode_or_value_def
          split: sum.splits)
qed

lemma get_yaw_lines:
  "fst (get_yaw uf s)
     = (case dropWhile (sends_again ''YAW'') (lines_of (pending s)) of
          [] \<Rightarrow> Blocked
        | l # rest \<Rightarrow> Returned (yaw_reply uf l))"
proof -
  obtain out s2 where rr: "request_rounds ''YAW'' ''0,'' s = (out, s2)"
    by (cases "request_rounds ''YAW'' ''0,'' s") auto
  note rounds = request_rounds_lines
    [where s = s and tag = "''YAW''" and command = "''0,''", OF refl, unfolded rr fst_conv]
  show ?thesis
  proof (cases "dropWhile (sends_again ''YAW'') (lines_of (pending s))")
    case Nil
    from rounds have "out = Blocked" unfolding Nil by simp
    then have "fst (get_yaw uf s) = Blocked"
      by (simp add: get_yaw_def get_yaw_try_rounds rr except_decode_or_value_def)
    then show ?thesis unfolding Nil by simp
  next
    case (Cons l rest)
    then have "l \<in> set (lines_of (pending s))"
      by (metis list.set_intros(1) set_dropWhileD)
    then obtain body where l: "l = body @ [newline]"
      using lines_of_terminated by blast
    from Cons have mine: "\<not> sends_again ''YAW'' l"
      by (metis hd_dropWhile list.distinct(1) list.sel(1))
    from rounds
    have out: "out = (case decode l of
                        Inl e \<Rightarrow> Raised e
                      | Inr str \<Rightarrow> Returned (split_on CHR '','' str))"
      unfolding Cons by simp
    have "fst (get_yaw uf s) = Returned (yaw_reply uf l)"
    proof (cases "decode l = Inr l")
      case False
      with decode_cases [of l] have bad: "decode l = Inl UnicodeDecodeError" by simp
      with out have "out = Raised UnicodeDecodeError"
        by simp
      then have "fst (get_yaw uf s) = Returned None"
        by (simp add: get_yaw_def get_yaw_try_rounds rr except_decode_or_value_def)
      with bad show ?thesis by (simp add: yaw_reply_def)
    next
      case True
      obtain r0 rs where fields: "split_on CHR '','' l = r0 # rs"
        using split_on_not_Nil [of "CHR '',''" l] by (cases "split_on CHR '','' l") auto
      with mine True have tag: "r0 = ''YAW''" by (simp add: sends_again_def)
      then have "newline \<notin> set r0" by (simp add: newline_def)
      with fields l have "rs \<noteq> []" using tagged_line_has_payload by blast
      then obtain payload others where rs: "rs = payload # others" by (cases rs) auto
      from out True fields
      have r: "out = Returned (r0 # rs)" by simp
      show ?thesis
      proof (cases "py_float uf payload")
        case (Inl e)
        then have "e = ValueError" by (rule py_float_error)
        with Inl r rs have "fst (get_yaw uf s) = Returned None"
          by (simp add: get_yaw_def get_yaw_try_rounds rr except_decode_or_value_def item1_def)
        with Inl True fields tag rs show ?thesis by (simp add: yaw_reply_def)
      next
        case (Inr yaw)
        with r rs have "fst (get_yaw uf s) = Returned (Some yaw)"
          by (simp add: get_yaw_def get_yaw_try_rounds rr except_decode_or_value_def item1_def)
        with Inr True fields tag rs show ?thesis by (simp add: yaw_reply_def)
      qed
    qed
    then show ?thesis unfolding Cons by simp
  qed
qed


lemma writes_append: "writes (es @ fs) = writes es @ writes fs"
  by (induction es rule: writes.induct) simp_all

lemma writes_exchanges: "writes (exchanges command ls) = replicate (length ls) command"
  by (induction ls) (simp_all add: exchanges_def)

lemma get_yaw_trace_lines:
  "trace (snd (get_yaw uf s))
     = trace s @ exchanges ''0,'' (takeWhile (sends_again ''YAW'') (lines_of (pending s)))
       @ (case dropWhile (sends_again ''YAW'') (lines_of (pending s)) of
            [] \<Rightarrow> [Write ''0,'']
          | l # rest \<Rightarrow> [Write ''0,'', Read l])"
  using request_rounds_lines [where s = s and tag = "''YAW''" and command = "''0,''", OF refl]
  by (simp add: get_yaw_trace)

lemma float_173_5: "py_float uf (''173.5'' @ [newline]) = Inr (Float 173.5)"
  by (simp add: py_float_def is_ascii_def ascii_float_def overflow_bound_def strip_def
        is_space_def split_sign_def lower_def parse_number_def digitpart_def is_digit_def
        digit_value_def digits_value_def parse_exponent_def scale10_def newline_def)

lemma reply_173_5: "yaw_reply uf (''YAW,173.5'' @ [newline]) = Some (Float 173.5)"
  using float_173_5 by (simp add: yaw_reply_def decode_def newline_def)

text \<open>
  Claim C5, on the code. A response line whose first comma-separated field is not \<open>YAW\<close>
  does not always make \<open>get_yaw\<close> send the command again: when the line is not UTF-8 the
  call returns \<open>None\<close> after its single write and single read, and the \<open>YAW\<close> line the
  device sends next stays unread. On lines that decode the code does what the claim says:
  after a line tagged \<open>OFFSET\<close> the command is sent once more before the next read, and
  the response line \<open>YAW,173.5\<close> makes \<open>get_yaw\<close> return 173.5.
\<close>

theorem magnet_get_yaw_undecodable_line:
  "hd (split_on CHR '','' ([CHR 0xFF] @ '',1'' @ [newline])) \<noteq> ''YAW''
   \<and> get_yaw uf port_bad_first_field
     = (Returned None,
        \<lparr>pending = ''YAW,173.5'' @ [newline],
          trace = [Write ''0,'', Read ([CHR 0xFF] @ '',1'' @ [newline])]\<rparr>)
   \<and> fst (get_yaw uf port_other_first) = Returned (Some (Float 173.5))
   \<and> trace (snd (get_yaw uf port_other_first))
     = [Write ''0,'', Read (''OFFSET,1'' @ [newline]),
        Write ''0,'', Read (''YAW,173.5'' @ [newline])]"
proof (intro conjI)
  show "hd (split_on CHR '','' ([CHR 0xFF] @ '',1'' @ [newline])) \<noteq> ''YAW''"
    by (simp add: newline_def)
  show "get_yaw uf port_bad_first_field
     = (Returned None,
        \<lparr>pending = ''YAW,173.5'' @ [newline],
          trace = [Write ''0,'', Read ([CHR 0xFF] @ '',1'' @ [newline])]\<rparr>)"
    by code_simp
  have tw: "takeWhile (sends_again ''YAW'') (lines_of (pending port_other_first))
              = [''OFFSET,1'' @ [newline]]"
    by code_simp
  have dw: "dropWhile (sends_again ''YAW'') (lines_of (pending port_other_first))
              = [''YAW,173.5'' @ [newline]]"
    by code_simp
  have t: "trace port_other_first = []"
    by (simp add: port_other_first_def)
  from get_yaw_lines [of uf port_other_first]
  show "fst (get_yaw uf port_other_first) = Returned (Some (Float 173.5))"
    unfolding dw using reply_173_5 [of uf] by simp
  from get_yaw_trace_lines [of uf port_other_first]
  show "trace (snd (get_yaw uf port_other_first))
     = [Write ''0,'', Read (''OFFSET,1'' @ [newline]),
        Write ''0,'', Read (''YAW,173.5'' @ [newline])]"
    unfolding tw dw t by (simp add: exchanges_def)
qed

text \<open>
  Claim C7, on the code. \<open>get_yaw\<close> never raises to its caller, but a decode failure does
  not make it retry: on a response with a non-numeric payload, and on one that is not
  UTF-8, it returns \<open>None\<close> after a single write and a single read, leaving the device's
  next line unread.
\<close>

theorem magnet_get_yaw_no_retry:
  "get_yaw uf port_not_numeric
     = (Returned None,
        \<lparr>pending = ''YAW,1.0'' @ [newline],
          trace = [Write ''0,'', Read (''YAW,abc'' @ [newline])]\<rparr>)
   \<and> get_yaw uf port_not_utf8
     = (Returned None,
        \<lparr>pending = ''YAW,1.0'' @ [newline],
          trace = [Write ''0,'', Read [CHR 0xFF, newline]]\<rparr>)
   \<and> (\<forall>e. fst (get_yaw uf s) \<noteq> Raised e)"
proof (intro conjI)
  show "get_yaw uf port_not_numeric
     = (Returned None,
        \<lparr>pending = ''YAW,1.0'' @ [newline],
          trace = [Write ''0,'', Read (''YAW,abc'' @ [newline])]\<rparr>)"
    by code_simp
  show "get_yaw uf port_not_utf8
     = (Returned None,
        \<lparr>pending = ''YAW,1.0'' @ [newline],
          trace = [Write ''0,'', Read [CHR 0xFF, newline]]\<rparr>)"
    by code_simp
  show "\<forall>e. fst (get_yaw uf s) \<noteq> Raised e"
    by (simp add: get_yaw_lines split: list.splits)
qed

lemma offset_trace:
  "trace (snd (offset fmt aruco_yaw s))
     = trace (snd (request_rounds ''OFFSET'' (''1,'' @ fmt aruco_yaw @ [newline]) s))"
proof -
  define command where "command = ''1,'' @ fmt aruco_yaw @ [newline]"
  obtain out s2 where rr: "request_rounds ''OFFSET'' command s = (out, s2)"
    by (cases "request_rounds ''OFFSET'' command s") auto
  have "offset_try fmt aruco_yaw s =
     (case request_rounds ''OFFSET'' command s of
        (Returned response, s2) \<Rightarrow>
          (case item1 response of
             Inl e \<Rightarrow> (Raised e, s2)
           | Inr flag \<Rightarrow> (Returned (Some (flag \<noteq> [])), s2))
      | (Raised e, s2) \<Rightarrow> (Raised e, s2)
      | (Blocked, s2) \<Rightarrow> (Blocked, s2))"
    unfolding command_def
    by (simp add: offset_try_def request_rounds_def encode_def Let_def
             split: prod.splits outcome.splits)
  then have "trace (snd (offset fmt aruco_yaw s)) = trace (snd (request_rounds ''OFFSET'' command s))"
    by (cases out)
       (simp_all add: offset_def rr except_decode_or_value_def split: sum.splits)
  then show ?thesis
    unfolding command_def .
qed

lemma request_rounds_writes:
  "writes (trace (snd (request_rounds tag command s)))
     = writes (trace s)
       @ replicate (Suc (length (takeWhile (sends_again tag) (lines_of (pending s))))) command"
  using request_rounds_lines [where s = s and tag = tag and command = command, OF refl]
  by (simp add: writes_append writes_exchanges replicate_append_same split: list.splits)

text \<open>
  Claim C8, on the code. Every request \<open>get_yaw\<close> writes is the two bytes \<open>0,\<close> with no
  newline after them, whereas the first request \<open>offset(v)\<close> writes is \<open>1,\<close> followed by
  the text of \<open>v\<close> and a newline.
\<close>

theorem magnet_requests_written:
  "writes (trace (snd (get_yaw uf port_yaw))) = [''0,'']
   \<and> set (writes (trace (snd (get_yaw uf \<lparr>pending = input, trace = []\<rparr>)))) = {''0,''}
   \<and> ''0,'' \<noteq> ''0,'' @ [newline]
   \<and> hd (writes (trace (snd (offset fmt aruco_yaw \<lparr>pending = input, trace = []\<rparr>))))
       = ''1,'' @ fmt aruco_yaw @ [newline]"
proof (intro conjI)
  have "takeWhile (sends_again ''YAW'') (lines_of (pending port_yaw)) = []"
    by code_simp
  moreover have "trace port_yaw = []"
    by (simp add: port_yaw_def)
  ultimately show "writes (trace (snd (get_yaw uf port_yaw))) = [''0,'']"
    by (simp add: get_yaw_trace request_rounds_writes)
  show "set (writes (trace (snd (get_yaw uf \<lparr>pending = input, trace = []\<rparr>)))) = {''0,''}"
    by (auto simp: get_yaw_trace request_rounds_writes)
  show "''0,'' \<noteq> ''0,'' @ [newline]"
    by simp
  show "hd (writes (trace (snd (offset fmt aruco_yaw \<lparr>pending = input, trace = []\<rparr>))))
       = ''1,'' @ fmt aruco_yaw @ [newline]"
    by (simp add: offset_trace request_rounds_writes)
qed


section \<open>Properties of the training orchestrator\<close>




end
